theory Spec2Isabelle
  imports Main "HOL-Library.Word"
begin

section \<open>Values, faults and errors\<close>

text \<open>
  The development embeds the third (most complete) iteration of \<^verbatim>\<open>crunchio.go\<close>: the
  \<^verbatim>\<open>Buffer\<close> with \<^verbatim>\<open>parent\<close>, \<^verbatim>\<open>length\<close>, \<^verbatim>\<open>offset\<close> and \<^verbatim>\<open>closed\<close> fields.
  Go's \<^verbatim>\<open>int64\<close> is a 64-bit word read in two's complement (\<open>sint\<close>); Go's \<^verbatim>\<open>int\<close> is taken
  to be 64 bits wide as well, so \<^verbatim>\<open>int(toRead)\<close> converts nothing. The length of a slice is a
  natural number; \<^verbatim>\<open>int64(len(p))\<close> is \<open>of_nat (length p)\<close>.

  A Go panic ends the call: it is the left injection of the result. An \<^verbatim>\<open>error\<close> value
  returned next to a count is an ordinary result. The methods that walk the parent chain
  need not return on a cyclic chain: their results are wrapped in \<open>option\<close> and \<open>None\<close>
  stands for a call that never returns. The per-instance mutex is not modelled: calls are
  executed one at a time.
\<close>

type_synonym byte = "8 word"
type_synonym int64 = "64 word"

datatype panic =
    NilReceiver string
  | NilPointer
  | SliceBounds
  | NegativeGrow
  | InterfaceConversion

datatype error =
    EOF
  | Vanished string
  | Unsupported
  | ReaderError

type_synonym 'a res = "(panic + 'a) option"

definition ret :: "'a \<Rightarrow> 'a res" where
  "ret x = Some (Inr x)"

definition raise :: "panic \<Rightarrow> 'a res" where
  "raise e = Some (Inl e)"

definition lift :: "panic + 'a \<Rightarrow> 'a res" where
  "lift r = Some r"

definition bind_res :: "'a res \<Rightarrow> ('a \<Rightarrow> 'b res) \<Rightarrow> 'b res" where
  "bind_res m f =
     (case m of
        None \<Rightarrow> None
      | Some r \<Rightarrow> (case r of Inl e \<Rightarrow> Some (Inl e) | Inr x \<Rightarrow> f x))"

section \<open>The backing store\<close>

text \<open>
  Modelled from the spec: \<^verbatim>\<open>crunch.Buffer\<close> of \<^verbatim>\<open>github.com/superwhiskers/crunch/v3\<close> is
  an external collaborator whose code is not part of the repository. The spec gives it as
  a growable byte array with grow-by(n), read-range(offset, len), write-range(offset, bytes),
  current-capacity(), raw-bytes(), reset (capacity to 0) and an internal cursor that
  \<^verbatim>\<open>SeekByte\<close> repositions. A range that leaves the array is a fault, as every Go slice
  access out of range is; the bounds are compared as mathematical integers.
\<close>

record crunch_Buffer =
  buf :: "byte list"
  off :: int64

text \<open>Modelled from the spec: a store built from initial slices holds their concatenation, with the cursor at 0.\<close>

definition crunch_NewBuffer :: "byte list list \<Rightarrow> crunch_Buffer" where
  "crunch_NewBuffer slices = \<lparr>buf = concat slices, off = 0\<rparr>"

text \<open>Modelled from the spec: current-capacity(), the number of bytes held, as an \<^verbatim>\<open>int64\<close>.\<close>

definition crunch_ByteCapacity :: "crunch_Buffer \<Rightarrow> int64" where
  "crunch_ByteCapacity c = of_nat (length (buf c))"

text \<open>Modelled from the spec: raw-bytes(), the whole contents.\<close>

definition crunch_Bytes :: "crunch_Buffer \<Rightarrow> byte list" where
  "crunch_Bytes c = buf c"

text \<open>Modelled from the spec: grow-by(n) appends \<open>n\<close> zero bytes; a negative \<open>n\<close> is a fault.\<close>

definition crunch_Grow :: "crunch_Buffer \<Rightarrow> int64 \<Rightarrow> panic + crunch_Buffer" where
  "crunch_Grow c n =
     (if sint n < 0 then Inl NegativeGrow
      else Inr (c\<lparr>buf := buf c @ replicate (nat (sint n)) 0\<rparr>))"

text \<open>Modelled from the spec: read-range(offset, len); a range outside the array is a fault.\<close>

definition crunch_ReadBytes :: "crunch_Buffer \<Rightarrow> int64 \<Rightarrow> int64 \<Rightarrow> panic + byte list" where
  "crunch_ReadBytes c ofs n =
     (if sint ofs < 0 \<or> sint n < 0 \<or> int (length (buf c)) < sint ofs + sint n
      then Inl SliceBounds
      else Inr (take (nat (sint n)) (drop (nat (sint ofs)) (buf c))))"

text \<open>Modelled from the spec: write-range(offset, bytes) overwrites in place and never grows; a range outside the array is a fault.\<close>

definition crunch_WriteBytes :: "crunch_Buffer \<Rightarrow> int64 \<Rightarrow> byte list \<Rightarrow> panic + crunch_Buffer" where
  "crunch_WriteBytes c ofs data =
     (if sint ofs < 0 \<or> int (length (buf c)) < sint ofs + int (length data)
      then Inl SliceBounds
      else Inr (c\<lparr>buf := take (nat (sint ofs)) (buf c) @ data
                           @ drop (nat (sint ofs) + length data) (buf c)\<rparr>))"

text \<open>Modelled from the spec: write-range of a single byte.\<close>

definition crunch_WriteByte :: "crunch_Buffer \<Rightarrow> int64 \<Rightarrow> byte \<Rightarrow> panic + crunch_Buffer" where
  "crunch_WriteByte c ofs b = crunch_WriteBytes c ofs [b]"

text \<open>Modelled from the spec: write-range at the cursor, which then advances by the number of bytes.\<close>

definition crunch_WriteBytesNext :: "crunch_Buffer \<Rightarrow> byte list \<Rightarrow> panic + crunch_Buffer" where
  "crunch_WriteBytesNext c data =
     (case crunch_WriteBytes c (off c) data of
        Inl e \<Rightarrow> Inl e
      | Inr c' \<Rightarrow> Inr (c'\<lparr>off := off c' + of_nat (length data)\<rparr>))"

text \<open>Modelled from the spec: the internal cursor is repositioned, relative to its position or absolutely, without a bounds check.\<close>

definition crunch_SeekByte :: "crunch_Buffer \<Rightarrow> int64 \<Rightarrow> bool \<Rightarrow> crunch_Buffer" where
  "crunch_SeekByte c ofs relative = c\<lparr>off := (if relative then off c + ofs else ofs)\<rparr>"

text \<open>Modelled from the spec: reset empties the store (capacity 0) and rewinds the cursor.\<close>

definition crunch_Reset :: "crunch_Buffer \<Rightarrow> crunch_Buffer" where
  "crunch_Reset c = \<lparr>buf = [], off = 0\<rparr>"

text \<open>
  Modelled from the spec: the little-endian encoding of a fixed-width value in \<open>n\<close> bytes,
  lowest byte first.
\<close>

definition le_bytes :: "nat \<Rightarrow> 'a::len word \<Rightarrow> byte list" where
  "le_bytes n w = map (\<lambda>i. ucast (drop_bit (8 * i) w)) [0..<n]"

text \<open>Modelled from the spec: the fixed-width little-endian writes (\<^verbatim>\<open>WriteU16LE\<close>, \<^verbatim>\<open>WriteI32LE\<close>, \<^verbatim>\<open>WriteF64LE\<close> and the like) store the encodings of the elements, in order, from the given offset.\<close>

definition crunch_WriteLE ::
  "nat \<Rightarrow> crunch_Buffer \<Rightarrow> int64 \<Rightarrow> 'a::len word list \<Rightarrow> panic + crunch_Buffer" where
  "crunch_WriteLE n c ofs data = crunch_WriteBytes c ofs (concat (map (le_bytes n) data))"

section \<open>The cursor buffer and the heap\<close>

text \<open>
  \<^verbatim>\<open>*Buffer\<close> and \<^verbatim>\<open>*crunch.Buffer\<close> are pointers: an address, or \<open>None\<close> for \<^verbatim>\<open>nil\<close>.
  The state holds the \<^verbatim>\<open>Buffer\<close> objects and the stores at their addresses, and the next
  free address of each kind for \<^verbatim>\<open>new\<close>.
\<close>

record Buffer =
  buffer :: "nat option"
  parent :: "nat option"
  length_fld :: int64
  offset :: int64
  closed :: bool
  name :: string

record state =
  bufs :: "nat \<Rightarrow> Buffer"
  stores :: "nat \<Rightarrow> crunch_Buffer"
  next_buf :: nat
  next_store :: nat

definition zero_Buffer :: Buffer where
  "zero_Buffer = \<lparr>buffer = None, parent = None, length_fld = 0, offset = 0,
                   closed = False, name = []\<rparr>"

definition init_state :: state where
  "init_state = \<lparr>bufs = (\<lambda>_. zero_Buffer), stores = (\<lambda>_. \<lparr>buf = [], off = 0\<rparr>),
                  next_buf = 0, next_store = 0\<rparr>"

definition upd_buf :: "state \<Rightarrow> nat \<Rightarrow> (Buffer \<Rightarrow> Buffer) \<Rightarrow> state" where
  "upd_buf s a f = s\<lparr>bufs := (bufs s)(a := f (bufs s a))\<rparr>"

definition upd_store :: "state \<Rightarrow> nat \<Rightarrow> crunch_Buffer \<Rightarrow> state" where
  "upd_store s k c = s\<lparr>stores := (stores s)(k := c)\<rparr>"

text \<open>\<^verbatim>\<open>new(Buffer)\<close>: a fresh zeroed object.\<close>

definition new_Buffer :: "state \<Rightarrow> state \<times> nat" where
  "new_Buffer s =
     (s\<lparr>bufs := (bufs s)(next_buf s := zero_Buffer), next_buf := Suc (next_buf s)\<rparr>,
      next_buf s)"

definition new_store :: "state \<Rightarrow> crunch_Buffer \<Rightarrow> state \<times> nat" where
  "new_store s c =
     (s\<lparr>stores := (stores s)(next_store s := c), next_store := Suc (next_store s)\<rparr>,
      next_store s)"

text \<open>Go's built-in \<^verbatim>\<open>copy(dst, src)\<close>: the overwritten destination and the count.\<close>

definition copy_go :: "byte list \<Rightarrow> byte list \<Rightarrow> byte list \<times> nat" where
  "copy_go dst src =
     (let n = min (length dst) (length src) in (take n src @ drop n dst, n))"

definition SeekStart :: int where "SeekStart = 0"
definition SeekCurrent :: int where "SeekCurrent = 1"
definition SeekEnd :: int where "SeekEnd = 2"

section \<open>Methods of Buffer\<close>

definition SetName :: "state \<Rightarrow> nat option \<Rightarrow> string \<Rightarrow> panic + state" where
  "SetName s b nm =
     (case b of
        None \<Rightarrow> Inl (NilReceiver ''SETNAME'')
      | Some a \<Rightarrow> Inr (upd_buf s a (\<lambda>x. x\<lparr>name := nm\<rparr>)))"

definition GetName :: "state \<Rightarrow> nat option \<Rightarrow> panic + string" where
  "GetName s b =
     (case b of
        None \<Rightarrow> Inl (NilReceiver ''GETNAME'')
      | Some a \<Rightarrow> Inr (name (bufs s a)))"

definition NewBuffer :: "state \<Rightarrow> string \<Rightarrow> byte list list \<Rightarrow> panic + state \<times> nat option" where
  "NewBuffer s nm slices =
     (let (s1, a) = new_Buffer s;
          (s2, k) = new_store s1 (crunch_NewBuffer slices);
          s3 = upd_buf s2 a (\<lambda>x. x\<lparr>buffer := Some k\<rparr>);
          s4 = upd_buf s3 a (\<lambda>x. x\<lparr>length_fld := crunch_ByteCapacity (stores s3 k)\<rparr>)
      in case SetName s4 (Some a) nm of
           Inl e \<Rightarrow> Inl e
         | Inr s5 \<Rightarrow> Inr (s5, Some a))"

partial_function (option) Closed :: "state \<Rightarrow> nat option \<Rightarrow> (panic + bool) option" where
  "Closed s b =
     (case b of
        None \<Rightarrow> Some (Inl (NilReceiver ''CLOSED''))
      | Some a \<Rightarrow>
          (case parent (bufs s a) of
             Some p \<Rightarrow> Closed s (Some p)
           | None \<Rightarrow> Some (Inr (closed (bufs s a)))))"

text \<open>
  The accessor \<^verbatim>\<open>Buffer()\<close>: the store of the root, and on the way back every buffer of
  the chain refreshes its \<^verbatim>\<open>length\<close> from the store's capacity. A \<^verbatim>\<open>nil\<close> store faults
  in \<^verbatim>\<open>buffer.ByteCapacity()\<close>.
\<close>

partial_function (option) Buffer_acc ::
  "state \<Rightarrow> nat option \<Rightarrow> (panic + state \<times> nat option) option" where
  "Buffer_acc s b =
     (case b of
        None \<Rightarrow> Some (Inl (NilReceiver ''BUFFER''))
      | Some a \<Rightarrow>
          Option.bind
            (case parent (bufs s a) of
               Some p \<Rightarrow> Buffer_acc s (Some p)
             | None \<Rightarrow> Some (Inr (s, buffer (bufs s a))))
            (\<lambda>r. case r of
                   Inl e \<Rightarrow> Some (Inl e)
                 | Inr (s1, bf) \<Rightarrow>
                     (case bf of
                        None \<Rightarrow> Some (Inl NilPointer)
                      | Some k \<Rightarrow>
                          Some (Inr (upd_buf s1 a
                                  (\<lambda>x. x\<lparr>length_fld := crunch_ByteCapacity (stores s1 k)\<rparr>),
                                bf)))))"

definition ReadOffset ::
  "state \<Rightarrow> nat option \<Rightarrow> byte list \<Rightarrow> int64 \<Rightarrow> (state \<times> byte list \<times> nat \<times> error option) res" where
  "ReadOffset s b dst ofs =
     (case b of
        None \<Rightarrow> raise (NilReceiver ''READOFFSET'')
      | Some a \<Rightarrow>
          bind_res (Closed s b) (\<lambda>c.
            if c then ret (s, dst, 0, Some EOF)
            else bind_res (Buffer_acc s b) (\<lambda>(s1, bf).
              case bf of
                None \<Rightarrow> ret (s1, dst, 0, Some (Vanished ''readoffset''))
              | Some k \<Rightarrow>
                  (let toRead0 = length_fld (bufs s1 a) - ofs;
                       toRead = (if int (length dst) < sint toRead0
                                 then of_nat (length dst) else toRead0)
                   in if toRead = 0 then ret (s1, dst, 0, None)
                      else bind_res (lift (crunch_ReadBytes (stores s1 k) ofs toRead)) (\<lambda>bytes.
                             let (dst', n) = copy_go dst bytes
                             in ret (s1, dst', n, None))))))"

definition Read ::
  "state \<Rightarrow> nat option \<Rightarrow> byte list \<Rightarrow> (state \<times> byte list \<times> nat \<times> error option) res" where
  "Read s b dst =
     (case b of
        None \<Rightarrow> raise (NilReceiver ''READ'')
      | Some a \<Rightarrow>
          bind_res (Closed s b) (\<lambda>c.
            if c then ret (s, dst, 0, Some EOF)
            else
              (case parent (bufs s a) of
                 Some p \<Rightarrow>
                   bind_res (ReadOffset s (Some p) dst (offset (bufs s a)))
                     (\<lambda>(s1, dst', n, err).
                        ret (upd_buf s1 a (\<lambda>x. x\<lparr>offset := offset x + of_nat n\<rparr>),
                             dst', n, err))
               | None \<Rightarrow>
                   bind_res (Buffer_acc s b) (\<lambda>(s1, bf).
                     case bf of
                       None \<Rightarrow> ret (s1, dst, 0, Some (Vanished ''read''))
                     | Some k \<Rightarrow>
                         (let s2 = (if sint (length_fld (bufs s1 a)) \<le> sint (offset (bufs s1 a))
                                    then upd_buf s1 a (\<lambda>x. x\<lparr>offset := length_fld x\<rparr>)
                                    else s1);
                              toRead0 = length_fld (bufs s2 a) - offset (bufs s2 a);
                              toRead = (if int (length dst) < sint toRead0
                                        then of_nat (length dst) else toRead0)
                          in if toRead = 0 then ret (s2, dst, 0, None)
                             else bind_res
                                    (lift (crunch_ReadBytes (stores s2 k) (offset (bufs s2 a)) toRead))
                                    (\<lambda>bytes.
                                       let (dst', n) = copy_go dst bytes
                                       in ret (upd_buf s2 a (\<lambda>x. x\<lparr>offset := offset x + of_nat n\<rparr>),
                                               dst', n, None)))))))"

definition WriteOffset ::
  "state \<Rightarrow> nat option \<Rightarrow> byte list \<Rightarrow> int64 \<Rightarrow> (state \<times> nat \<times> error option) res" where
  "WriteOffset s b src ofs =
     (case b of
        None \<Rightarrow> raise (NilReceiver ''WRITEOFFSET'')
      | Some a \<Rightarrow>
          bind_res (Closed s b) (\<lambda>c.
            if c then ret (s, 0, Some EOF)
            else bind_res (Buffer_acc s b) (\<lambda>(s1, bf).
              case bf of
                None \<Rightarrow> ret (s1, 0, Some (Vanished ''writeoffset''))
              | Some k \<Rightarrow>
                  (let toGrow = (ofs + of_nat (length src)) - length_fld (bufs s1 a)
                   in bind_res
                        (if 0 < sint toGrow
                         then (let s2 = upd_buf s1 a (\<lambda>x. x\<lparr>length_fld := length_fld x + toGrow\<rparr>)
                               in bind_res (lift (crunch_Grow (stores s2 k) toGrow))
                                    (\<lambda>c'. ret (upd_store s2 k c')))
                         else ret s1)
                        (\<lambda>s3. bind_res (lift (crunch_WriteBytes (stores s3 k) ofs src))
                           (\<lambda>c'. ret (upd_store s3 k c', length src, None)))))))"

definition Write ::
  "state \<Rightarrow> nat option \<Rightarrow> byte list \<Rightarrow> (state \<times> nat \<times> error option) res" where
  "Write s b src =
     (case b of
        None \<Rightarrow> raise (NilReceiver ''WRITE'')
      | Some a \<Rightarrow>
          bind_res (Closed s b) (\<lambda>c.
            if c then ret (s, 0, Some EOF)
            else
              (case parent (bufs s a) of
                 Some p \<Rightarrow>
                   bind_res (WriteOffset s (Some p) src (offset (bufs s a)))
                     (\<lambda>(s1, wrote, err).
                        ret (upd_buf s1 a (\<lambda>x. x\<lparr>offset := offset x + of_nat wrote\<rparr>),
                             wrote, err))
               | None \<Rightarrow>
                   bind_res (Buffer_acc s b) (\<lambda>(s1, bf).
                     case bf of
                       None \<Rightarrow> ret (s1, 0, Some (Vanished ''write''))
                     | Some k \<Rightarrow>
                         (let toGrow = (offset (bufs s1 a) + of_nat (length src))
                                         - length_fld (bufs s1 a)
                          in bind_res
                               (if 0 < sint toGrow
                                then (let s2 = upd_buf s1 a
                                                 (\<lambda>x. x\<lparr>length_fld := length_fld x + toGrow\<rparr>)
                                      in bind_res (lift (crunch_Grow (stores s2 k) toGrow))
                                           (\<lambda>c'. ret (upd_store s2 k c')))
                                else ret s1)
                               (\<lambda>s3. bind_res
                                        (lift (crunch_WriteBytes (stores s3 k) (offset (bufs s3 a)) src))
                                        (\<lambda>c'. let s4 = upd_store s3 k c'; wrote = length src
                                              in ret (upd_buf s4 a
                                                        (\<lambda>x. x\<lparr>offset := offset x + of_nat wrote\<rparr>),
                                                      wrote, None))))))))"

definition Seek ::
  "state \<Rightarrow> nat option \<Rightarrow> int64 \<Rightarrow> int \<Rightarrow> (state \<times> int64 \<times> error option) res" where
  "Seek s b to whence =
     (case b of
        None \<Rightarrow> raise (NilReceiver ''SEEK'')
      | Some a \<Rightarrow>
          bind_res (Closed s b) (\<lambda>c.
            if c then ret (s, 0, Some EOF)
            else bind_res (Buffer_acc s b) (\<lambda>(s1, bf).
              case bf of
                None \<Rightarrow> ret (s1, 0, Some (Vanished ''seek''))
              | Some k \<Rightarrow>
                  (let s2 = (if whence = SeekStart
                               then upd_buf s1 a (\<lambda>x. x\<lparr>offset := to\<rparr>)
                             else if whence = SeekCurrent
                               then upd_buf s1 a (\<lambda>x. x\<lparr>offset := offset x + to\<rparr>)
                             else if whence = SeekEnd
                               then upd_buf s1 a (\<lambda>x. x\<lparr>offset := length_fld x - to\<rparr>)
                             else s1);
                       ofs = offset (bufs s2 a);
                       s3 = (if parent (bufs s2 a) = None
                             then upd_store s2 k (crunch_SeekByte (stores s2 k) ofs False)
                             else s2)
                   in ret (s3, ofs, None)))))"

partial_function (option) Close ::
  "state \<Rightarrow> nat option \<Rightarrow> (panic + state \<times> error option) option" where
  "Close s b =
     (case b of
        None \<Rightarrow> Some (Inl (NilReceiver ''CLOSE''))
      | Some a \<Rightarrow>
          (let s1 = upd_buf s a (\<lambda>x. x\<lparr>closed := True\<rparr>)
           in case parent (bufs s1 a) of
                Some p \<Rightarrow> Close s1 (Some p)
              | None \<Rightarrow> Some (Inr (s1, None))))"

partial_function (option) Reset :: "state \<Rightarrow> nat option \<Rightarrow> (panic + state) option" where
  "Reset s b =
     (case b of
        None \<Rightarrow> Some (Inl (NilReceiver ''RESET''))
      | Some a \<Rightarrow>
          (let s1 = upd_buf s a (\<lambda>x. x\<lparr>length_fld := 0\<rparr>);
               s2 = upd_buf s1 a (\<lambda>x. x\<lparr>offset := 0\<rparr>)
           in case parent (bufs s2 a) of
                Some p \<Rightarrow> Reset s2 (Some p)
              | None \<Rightarrow>
                  (case buffer (bufs s2 a) of
                     None \<Rightarrow> Some (Inl NilPointer)
                   | Some k \<Rightarrow> Some (Inr (upd_store s2 k (crunch_Reset (stores s2 k)))))))"

definition Reference :: "state \<Rightarrow> nat option \<Rightarrow> panic + state \<times> nat option" where
  "Reference s b =
     (case b of
        None \<Rightarrow> Inl (NilReceiver ''REFERENCE'')
      | Some a \<Rightarrow>
          (let (s1, nb) = new_Buffer s;
               s2 = upd_buf s1 nb (\<lambda>x. x\<lparr>parent := Some a\<rparr>)
           in Inr (s2, Some nb)))"

text \<open>
  \<^verbatim>\<open>Copy\<close> reads the receiver's own \<^verbatim>\<open>buffer\<close> field, not the accessor: on a \<^verbatim>\<open>nil\<close>
  field the call \<^verbatim>\<open>b.buffer.Bytes()\<close> dereferences \<^verbatim>\<open>nil\<close>.
\<close>

definition Copy :: "state \<Rightarrow> nat option \<Rightarrow> panic + state \<times> nat option" where
  "Copy s b =
     (case b of
        None \<Rightarrow> Inl (NilReceiver ''COPY'')
      | Some a \<Rightarrow>
          (let (s1, nb) = new_Buffer s
           in case buffer (bufs s1 a) of
                None \<Rightarrow> Inl NilPointer
              | Some k \<Rightarrow>
                  (let (s2, k') = new_store s1 (crunch_NewBuffer [crunch_Bytes (stores s1 k)]);
                       s3 = upd_buf s2 nb (\<lambda>x. x\<lparr>buffer := Some k'\<rparr>);
                       s4 = upd_buf s3 nb (\<lambda>x. x\<lparr>length_fld := length_fld (bufs s3 a)\<rparr>)
                   in Inr (s4, Some nb))))"

definition ByteCapacity :: "state \<Rightarrow> nat option \<Rightarrow> (state \<times> int64) res" where
  "ByteCapacity s b =
     (case b of
        None \<Rightarrow> raise (NilReceiver ''BYTECAPACITY'')
      | Some a \<Rightarrow>
          bind_res (Buffer_acc s b) (\<lambda>(s1, bf).
            if bf \<noteq> None then ret (s1, length_fld (bufs s1 a)) else ret (s1, 0)))"

definition Size :: "state \<Rightarrow> nat option \<Rightarrow> (state \<times> int64) res" where
  "Size s b =
     (case b of
        None \<Rightarrow> raise (NilReceiver ''SIZE'')
      | Some a \<Rightarrow> ByteCapacity s b)"

definition Bytes :: "state \<Rightarrow> nat option \<Rightarrow> (state \<times> byte list) res" where
  "Bytes s b =
     (case b of
        None \<Rightarrow> raise (NilReceiver ''BYTES'')
      | Some a \<Rightarrow>
          bind_res (Buffer_acc s b) (\<lambda>(s1, bf).
            case bf of
              None \<Rightarrow> raise NilPointer
            | Some k \<Rightarrow> ret (s1, crunch_Bytes (stores s1 k))))"

definition String_of :: "state \<Rightarrow> nat option \<Rightarrow> (state \<times> byte list) res" where
  "String_of s b =
     (case b of
        None \<Rightarrow> raise (NilReceiver ''STRING'')
      | Some a \<Rightarrow> Bytes s b)"

section \<open>The typed value encoder\<close>

text \<open>
  The dynamic value handed to \<^verbatim>\<open>WriteAbstract\<close>, one constructor for each dynamic type
  the type switch tells apart. A reader carries what \<^verbatim>\<open>io.ReadAll\<close> returns on it, a
  \<^verbatim>\<open>Bytes\<close> implementation what its \<^verbatim>\<open>Bytes()\<close> returns; floats are given by their IEEE
  bit patterns. In a \<^verbatim>\<open>case\<close> that lists several types the variable keeps the interface
  type, and a type assertion \<^verbatim>\<open>data.(T)\<close> on a value of another dynamic type panics.
\<close>

datatype abstract =
    Reader "error + byte list"
  | HasBytes "byte list"
  | GoByte byte
  | GoBool bool
  | GoInt int64
  | GoUint int64
  | ByteSlice "byte list"
  | GoString string
  | Strings "string list"
  | I16 "16 word"
  | I16s "16 word list"
  | I32 "32 word"
  | I32s "32 word list"
  | I64 "64 word"
  | I64s "64 word list"
  | U16 "16 word"
  | U16s "16 word list"
  | U32 "32 word"
  | U32s "32 word list"
  | U64 "64 word"
  | U64s "64 word list"
  | F32 "32 word"
  | F32s "32 word list"
  | F64 "64 word"
  | F64s "64 word list"
  | Other

definition string_bytes :: "string \<Rightarrow> byte list" where
  "string_bytes str = map of_char str"

definition then_store ::
  "panic + crunch_Buffer \<Rightarrow> (crunch_Buffer \<Rightarrow> panic + crunch_Buffer) \<Rightarrow> panic + crunch_Buffer" where
  "then_store m f = (case m of Inl e \<Rightarrow> Inl e | Inr c \<Rightarrow> f c)"

fun write_strings :: "crunch_Buffer \<Rightarrow> string list \<Rightarrow> panic + crunch_Buffer" where
  "write_strings c [] = Inr c"
| "write_strings c (str # rest) =
     then_store
       (then_store (crunch_Grow c (of_nat (length str)))
          (\<lambda>c1. crunch_WriteBytesNext c1 (string_bytes str)))
       (\<lambda>c2. write_strings c2 rest)"

definition grow_write_bytes :: "crunch_Buffer \<Rightarrow> byte list \<Rightarrow> panic + crunch_Buffer" where
  "grow_write_bytes c bytes =
     then_store (crunch_Grow c (of_nat (length bytes))) (\<lambda>c1. crunch_WriteBytes c1 0 bytes)"

definition grow_write_LE ::
  "nat \<Rightarrow> crunch_Buffer \<Rightarrow> int64 \<Rightarrow> 'a::len word list \<Rightarrow> panic + crunch_Buffer" where
  "grow_write_LE n c g numbers =
     then_store (crunch_Grow c g) (\<lambda>c1. crunch_WriteLE n c1 0 numbers)"

text \<open>
  The type switch of \<^verbatim>\<open>WriteAbstract\<close> on the scratch store: a panic, an early return with
  an error, or the filled scratch store.
\<close>

definition encode_switch :: "abstract \<Rightarrow> panic + (error + crunch_Buffer)" where
  "encode_switch data =
     (let scratch = crunch_NewBuffer [];
          cont = (\<lambda>m. case m of Inl e \<Rightarrow> Inl e | Inr c \<Rightarrow> Inr (Inr c))
      in case data of
           Reader r \<Rightarrow>
             (case r of
                Inl readErr \<Rightarrow> Inr (Inl readErr)
              | Inr bytes \<Rightarrow> cont (grow_write_bytes scratch bytes))
         | HasBytes bytes \<Rightarrow> cont (grow_write_bytes scratch bytes)
         | GoByte v \<Rightarrow>
             cont (then_store (crunch_Grow scratch 1) (\<lambda>c1. crunch_WriteByte c1 0 v))
         | GoBool v \<Rightarrow>
             cont (then_store (crunch_Grow scratch 1) (\<lambda>c1. Inl InterfaceConversion))
         | GoInt v \<Rightarrow>
             cont (then_store (crunch_Grow scratch 1) (\<lambda>c1. Inl InterfaceConversion))
         | GoUint v \<Rightarrow>
             cont (then_store (crunch_Grow scratch 1) (\<lambda>c1. Inl InterfaceConversion))
         | ByteSlice bytes \<Rightarrow> cont (grow_write_bytes scratch bytes)
         | GoString str \<Rightarrow> Inl InterfaceConversion
         | Strings strs \<Rightarrow> cont (write_strings scratch strs)
         | I16 v \<Rightarrow> cont (grow_write_LE 2 scratch 2 [v])
         | I16s vs \<Rightarrow> cont (grow_write_LE 2 scratch (of_nat (2 * length vs)) vs)
         | I32 v \<Rightarrow> cont (grow_write_LE 4 scratch 4 [v])
         | I32s vs \<Rightarrow> cont (grow_write_LE 4 scratch (of_nat (4 * length vs)) vs)
         | I64 v \<Rightarrow> cont (grow_write_LE 8 scratch 8 [v])
         | I64s vs \<Rightarrow> cont (grow_write_LE 8 scratch (of_nat (8 * length vs)) vs)
         | U16 v \<Rightarrow> cont (grow_write_LE 2 scratch 2 [v])
         | U16s vs \<Rightarrow> cont (grow_write_LE 2 scratch (of_nat (2 * length vs)) vs)
         | U32 v \<Rightarrow> cont (grow_write_LE 4 scratch 4 [v])
         | U32s vs \<Rightarrow> cont (grow_write_LE 4 scratch (of_nat (4 * length vs)) vs)
         | U64 v \<Rightarrow> cont (grow_write_LE 8 scratch 8 [v])
         | U64s vs \<Rightarrow> cont (grow_write_LE 8 scratch (of_nat (8 * length vs)) vs)
         | F32 v \<Rightarrow> cont (grow_write_LE 4 scratch 4 [v])
         | F32s vs \<Rightarrow> cont (grow_write_LE 4 scratch (of_nat (4 * length vs)) vs)
         | F64 v \<Rightarrow> cont (grow_write_LE 8 scratch 8 [v])
         | F64s vs \<Rightarrow> cont (grow_write_LE 8 scratch (of_nat (8 * length vs)) vs)
         | Other \<Rightarrow> Inr (Inl Unsupported))"

definition WriteAbstract ::
  "state \<Rightarrow> nat option \<Rightarrow> abstract \<Rightarrow> (state \<times> nat \<times> error option) res" where
  "WriteAbstract s b data =
     bind_res (lift (encode_switch data)) (\<lambda>r.
       case r of
         Inl err \<Rightarrow> ret (s, 0, Some err)
       | Inr scratch \<Rightarrow> Write s b (crunch_Bytes scratch))"

section \<open>Well-formed parent chains\<close>

text \<open>
  \<open>root_of s a r\<close>: following the \<^verbatim>\<open>parent\<close> pointers from the buffer at \<open>a\<close> ends at the
  root \<open>r\<close>. Every buffer built by \<^verbatim>\<open>NewBuffer\<close>, \<^verbatim>\<open>Copy\<close> and \<^verbatim>\<open>Reference\<close> has such a
  root. \<open>only_lengths s s1\<close>: the two states differ at most in \<^verbatim>\<open>length\<close> fields, which is
  all the accessor writes.
\<close>

inductive root_of :: "state \<Rightarrow> nat \<Rightarrow> nat \<Rightarrow> bool" where
  root: "parent (bufs s a) = None \<Longrightarrow> root_of s a a"
| ref: "parent (bufs s a) = Some p \<Longrightarrow> root_of s p r \<Longrightarrow> root_of s a r"

definition only_lengths :: "state \<Rightarrow> state \<Rightarrow> bool" where
  "only_lengths s s1 \<longleftrightarrow>
     stores s1 = stores s \<and> next_buf s1 = next_buf s \<and> next_store s1 = next_store s \<and>
     (\<forall>x. buffer (bufs s1 x) = buffer (bufs s x) \<and> parent (bufs s1 x) = parent (bufs s x) \<and>
          offset (bufs s1 x) = offset (bufs s x) \<and> closed (bufs s1 x) = closed (bufs s x) \<and>
          name (bufs s1 x) = name (bufs s x))"

text \<open>
  \<open>same_links\<close>: the two states agree on every \<^verbatim>\<open>buffer\<close>, \<^verbatim>\<open>parent\<close> and \<^verbatim>\<open>closed\<close>
  field and on the bytes of every store. \<open>only_closed\<close>: they differ at most in
  \<^verbatim>\<open>closed\<close> flags, which is all \<^verbatim>\<open>Close\<close> writes.
\<close>

definition same_links :: "state \<Rightarrow> state \<Rightarrow> bool" where
  "same_links s s1 \<longleftrightarrow>
     (\<forall>x. buffer (bufs s1 x) = buffer (bufs s x) \<and> parent (bufs s1 x) = parent (bufs s x) \<and>
          closed (bufs s1 x) = closed (bufs s x)) \<and>
     (\<forall>k. buf (stores s1 k) = buf (stores s k))"

definition only_closed :: "state \<Rightarrow> state \<Rightarrow> bool" where
  "only_closed s s1 \<longleftrightarrow>
     stores s1 = stores s \<and> next_buf s1 = next_buf s \<and> next_store s1 = next_store s \<and>
     (\<forall>x. buffer (bufs s1 x) = buffer (bufs s x) \<and> parent (bufs s1 x) = parent (bufs s x) \<and>
          length_fld (bufs s1 x) = length_fld (bufs s x) \<and>
          offset (bufs s1 x) = offset (bufs s x) \<and> name (bufs s1 x) = name (bufs s x))"

section \<open>Concrete scenarios\<close>

text \<open>
  \<open>outcome\<close> drops the state from a result, keeping what the caller is handed. The
  scenario states are built by running the methods from the empty heap: a root without
  initial data, a root seeded with the bytes 1 and 2, that root with one reference (at
  address 1), the empty root after \<^verbatim>\<open>Seek(-1, io.SeekStart)\<close>, the seeded root after
  \<^verbatim>\<open>Seek(0, io.SeekEnd)\<close>, and the seeded root after \<^verbatim>\<open>Close()\<close>.
\<close>

definition outcome :: "(state \<times> 'a) res \<Rightarrow> (panic + 'a) option" where
  "outcome m = map_option (map_sum id snd) m"

definition fresh_root :: state where
  "fresh_root = fst (projr (NewBuffer init_state ''r'' []))"

definition seeded_root :: state where
  "seeded_root = fst (projr (NewBuffer init_state ''r'' [[1, 2]]))"

definition with_reference :: state where
  "with_reference = fst (projr (Reference seeded_root (Some 0)))"

definition neg_offset_root :: state where
  "neg_offset_root = fst (projr (the (Seek fresh_root (Some 0) (- 1) SeekStart)))"

definition at_end_root :: state where
  "at_end_root = fst (projr (the (Seek seeded_root (Some 0) 0 SeekEnd)))"

definition closed_root :: state where
  "closed_root = fst (projr (the (Close seeded_root (Some 0))))"

section \<open>Basic facts\<close>


lemma bind_res_simps [simp]:
  "bind_res (ret x) f = f x"
  "bind_res (raise e) f = raise e"
  "bind_res (lift (Inr x)) f = f x"
  "bind_res (lift (Inl e)) f = raise e"
  "bind_res (Some (Inr x)) f = f x"
  "bind_res (Some (Inl e)) f = Some (Inl e)"
  "bind_res None f = None"
  by (simp_all add: bind_res_def ret_def raise_def lift_def)

lemma Closed_root: "parent (bufs s a) = None \<Longrightarrow> Closed s (Some a) = Some (Inr (closed (bufs s a)))"
  by (subst Closed.simps) simp

lemma Closed_ref: "parent (bufs s a) = Some p \<Longrightarrow> Closed s (Some a) = Closed s (Some p)"
  by (subst Closed.simps) simp

lemma Buffer_acc_root:
  "parent (bufs s a) = None \<Longrightarrow> buffer (bufs s a) = Some k \<Longrightarrow>
   Buffer_acc s (Some a) =
     Some (Inr (upd_buf s a (\<lambda>x. x\<lparr>length_fld := crunch_ByteCapacity (stores s k)\<rparr>), Some k))"
  by (subst Buffer_acc.simps) simp

lemma sint_of_int64: "- (2 ^ 63) \<le> k \<Longrightarrow> k < 2 ^ 63 \<Longrightarrow> sint (word_of_int k :: 64 word) = k"
  by (simp add: sint_sbintrunc' signed_take_bit_int_eq_self)

lemma sint_of_nat64: "n < 2 ^ 63 \<Longrightarrow> sint (of_nat n :: 64 word) = int n"
  using sint_of_int64 [of "int n"] by simp

lemma sint_grow:
  assumes "0 \<le> sint (x :: 64 word)" "sint x + int n < 2 ^ 63" "L < 2 ^ 63"
  shows "sint (x + of_nat n - of_nat L) = sint x + int n - int L"
proof -
  have "x + of_nat n - of_nat L = word_of_int (sint x + int n - int L)"
    by simp
  moreover have "- (2 ^ 63) \<le> sint x + int n - int L" "sint x + int n - int L < 2 ^ 63"
    using assms by simp_all
  ultimately show ?thesis
    using sint_of_int64 by presburger
qed

lemma of_nat_nat_sint: "0 \<le> sint (x :: 64 word) \<Longrightarrow> of_nat (nat (sint x)) = x"
proof -
  assume h: "0 \<le> sint x"
  have "(of_nat (nat (sint x)) :: 64 word) = word_of_int (int (nat (sint x)))"
    by simp
  also have "\<dots> = word_of_int (sint x)" using h by simp
  also have "\<dots> = x" by simp
  finally show ?thesis .
qed

lemma Write_root:
  assumes root: "parent (bufs s a) = None" "buffer (bufs s a) = Some k"
    and op: "\<not> closed (bufs s a)"
    and nonneg: "0 \<le> sint (offset (bufs s a))"
    and fits: "sint (offset (bufs s a)) + int (length src) < 2 ^ 63"
    and cap: "length (buf (stores s k)) < 2 ^ 63"
  shows "Write s (Some a) src =
    Some (Inr (s\<lparr>bufs := (bufs s)(a := (bufs s a)\<lparr>
                    length_fld := (if int (length (buf (stores s k))) < sint (offset (bufs s a)) + int (length src)
                                   then offset (bufs s a) + of_nat (length src)
                                   else of_nat (length (buf (stores s k)))),
                    offset := offset (bufs s a) + of_nat (length src)\<rparr>),
                 stores := (stores s)(k := (stores s k)\<lparr>buf :=
                    take (nat (sint (offset (bufs s a)))) (buf (stores s k))
                    @ replicate (nat (sint (offset (bufs s a))) - length (buf (stores s k))) 0
                    @ src
                    @ drop (nat (sint (offset (bufs s a))) + length src) (buf (stores s k))\<rparr>)\<rparr>,
               length src, None))"
proof -
  let ?o = "offset (bufs s a)"
  let ?L = "length (buf (stores s k))"
  have tg: "sint (?o + of_nat (length src) - of_nat ?L) = sint ?o + int (length src) - int ?L"
    using sint_grow [OF nonneg fits cap] .
  show ?thesis
  proof (cases "int ?L < sint ?o + int (length src)")
    case True
    then show ?thesis
      using root op nonneg tg
      apply (simp add: Write_def Closed_root Buffer_acc_root upd_buf_def upd_store_def
          crunch_ByteCapacity_def crunch_Grow_def crunch_WriteBytes_def Let_def ret_def lift_def)
      done
  next
    case False
    then show ?thesis
      using root op nonneg tg
      apply (simp add: Write_def Closed_root Buffer_acc_root upd_buf_def upd_store_def
          crunch_ByteCapacity_def crunch_Grow_def crunch_WriteBytes_def Let_def ret_def lift_def)
      done
  qed
qed



lemma root_of_is_root: "root_of s a r \<Longrightarrow> parent (bufs s r) = None"
  by (induction rule: root_of.induct) simp_all

lemma root_of_cong:
  "root_of s a r \<Longrightarrow> (\<And>x. parent (bufs s1 x) = parent (bufs s x)) \<Longrightarrow> root_of s1 a r"
proof (induction rule: root_of.induct)
  case (root s a)
  then show ?case by (simp add: root_of.root)
next
  case (ref s a p r)
  then show ?case by (metis root_of.ref)
qed

lemma Closed_chain:
  "root_of s a r \<Longrightarrow> Closed s (Some a) = Some (Inr (closed (bufs s r)))"
  by (induction rule: root_of.induct) (simp_all add: Closed_root Closed_ref)

lemma Buffer_acc_chain:
  "root_of s a r \<Longrightarrow> buffer (bufs s r) = Some k \<Longrightarrow>
   \<exists>s1. Buffer_acc s (Some a) = Some (Inr (s1, Some k)) \<and> only_lengths s s1 \<and>
        length_fld (bufs s1 a) = crunch_ByteCapacity (stores s k)"
proof (induction rule: root_of.induct)
  case (root s a)
  then show ?case
    by (simp add: Buffer_acc_root only_lengths_def upd_buf_def)
next
  case (ref s a p r)
  then obtain s1 where s1: "Buffer_acc s (Some p) = Some (Inr (s1, Some k))" "only_lengths s s1"
    by blast
  have "Buffer_acc s (Some a) = Some (Inr (upd_buf s1 a
           (\<lambda>x. x\<lparr>length_fld := crunch_ByteCapacity (stores s1 k)\<rparr>), Some k))"
    using ref.hyps(1) s1(1) by (subst Buffer_acc.simps) simp
  moreover have "only_lengths s (upd_buf s1 a (\<lambda>x. x\<lparr>length_fld := crunch_ByteCapacity (stores s1 k)\<rparr>))"
    using s1(2) by (auto simp: only_lengths_def upd_buf_def) 
  ultimately show ?case
    using s1(2) by (simp add: upd_buf_def only_lengths_def)
qed


lemma sint_sub_nat:
  assumes "0 \<le> sint (x :: 64 word)" "L < 2 ^ 63"
  shows "sint (of_nat L - x) = int L - sint x"
proof -
  have "of_nat L - x = word_of_int (int L - sint x)"
    by simp
  moreover have "- (2 ^ 63) \<le> int L - sint x" "int L - sint x < 2 ^ 63"
    using assms sint_lt [of x] by simp_all
  ultimately show ?thesis
    using sint_of_int64 by presburger
qed

lemma Seek_root:
  assumes root: "parent (bufs s a) = None" "buffer (bufs s a) = Some k"
    and op: "\<not> closed (bufs s a)"
  shows "Seek s (Some a) to whence =
    (let ofs = (if whence = SeekStart then to
                else if whence = SeekCurrent then offset (bufs s a) + to
                else if whence = SeekEnd then crunch_ByteCapacity (stores s k) - to
                else offset (bufs s a))
     in Some (Inr (s\<lparr>bufs := (bufs s)(a := (bufs s a)\<lparr>
                        length_fld := crunch_ByteCapacity (stores s k), offset := ofs\<rparr>),
                     stores := (stores s)(k := (stores s k)\<lparr>off := ofs\<rparr>)\<rparr>,
                   ofs, None)))"
  using root op
  by (simp add: Seek_def Closed_root Buffer_acc_root upd_buf_def upd_store_def
      crunch_SeekByte_def Let_def ret_def)




lemma of_nat64_eq_0: "n < 2 ^ 63 \<Longrightarrow> (of_nat n :: 64 word) = 0 \<longleftrightarrow> n = 0"
  using sint_of_nat64 [of n] by (auto simp del: of_nat_eq_0_iff)

lemma Read_root:
  assumes root: "parent (bufs s a) = None" "buffer (bufs s a) = Some k"
    and op: "\<not> closed (bufs s a)"
    and nonneg: "0 \<le> sint (offset (bufs s a))"
    and cap: "length (buf (stores s k)) < 2 ^ 63"
  shows "Read s (Some a) dst =
    (let L = length (buf (stores s k));
         p = min (nat (sint (offset (bufs s a)))) L;
         m = min (length dst) (L - p)
     in Some (Inr (s\<lparr>bufs := (bufs s)(a := (bufs s a)\<lparr>
                        length_fld := of_nat L, offset := of_nat (p + m)\<rparr>)\<rparr>,
                   take m (drop p (buf (stores s k))) @ drop m dst, m, None)))"
proof -
  let ?o = "offset (bufs s a)"
  let ?L = "length (buf (stores s k))"
  have sL: "sint (of_nat ?L :: 64 word) = int ?L"
    using cap by (rule sint_of_nat64)
  have sub: "sint (of_nat ?L - ?o) = int ?L - sint ?o"
    using sint_sub_nat [OF nonneg cap] .
  have oo: "of_nat (nat (sint ?o)) = ?o"
    using nonneg by (rule of_nat_nat_sint)
  show ?thesis
  proof (cases "int ?L \<le> sint ?o")
    case True
    then have "min (nat (sint ?o)) ?L = ?L" by simp
    then show ?thesis
      using root op True sL
      by (simp add: Read_def Closed_root Buffer_acc_root upd_buf_def upd_store_def
          crunch_ByteCapacity_def Let_def ret_def)
  next
    case False
    then have p: "min (nat (sint ?o)) ?L = nat (sint ?o)" by simp
    show ?thesis
    proof (cases "int (length dst) < int ?L - sint ?o")
      case True
      then have m: "min (length dst) (?L - nat (sint ?o)) = length dst"
        using nonneg by linarith
      have dl: "length dst < 2 ^ 63" using True cap nonneg by linarith
      have sd: "sint (of_nat (length dst) :: 64 word) = int (length dst)"
        using dl by (rule sint_of_nat64)
      have z: "(of_nat (length dst) :: 64 word) = 0 \<longleftrightarrow> length dst = 0"
        using dl by (rule of_nat64_eq_0)
      show ?thesis
        using root op False True nonneg
        by (simp add: Read_def Closed_root Buffer_acc_root upd_buf_def upd_store_def
          crunch_ByteCapacity_def crunch_ReadBytes_def copy_go_def Let_def ret_def lift_def
          sL sub sd z p m oo)
    next
      case F2: False
      then have m: "min (length dst) (?L - nat (sint ?o)) = ?L - nat (sint ?o)"
        using nonneg by linarith
      have nz: "of_nat ?L - ?o \<noteq> 0"
        using sub False by (metis diff_gt_0_iff_gt not_le order_less_irrefl sint_0) 
      have e: "of_nat (nat (sint ?o) + (?L - nat (sint ?o))) = (of_nat ?L :: 64 word)"
        using False by simp
      have n: "nat (int ?L - sint ?o) = ?L - nat (sint ?o)"
        using nonneg by linarith
      show ?thesis
        using root op False F2 nonneg nz
        by (simp add: Read_def Closed_root Buffer_acc_root upd_buf_def upd_store_def
          crunch_ByteCapacity_def crunch_ReadBytes_def copy_go_def Let_def ret_def lift_def
          sL sub p m e n)
    qed
  qed
qed

lemma NewBuffer_eq:
  "NewBuffer s nm slices =
     Inr (s\<lparr>bufs := (bufs s)(next_buf s := \<lparr>buffer = Some (next_store s), parent = None,
                  length_fld = of_nat (length (concat slices)), offset = 0, closed = False,
                  name = nm\<rparr>),
              stores := (stores s)(next_store s := \<lparr>buf = concat slices, off = 0\<rparr>),
              next_buf := Suc (next_buf s), next_store := Suc (next_store s)\<rparr>,
          Some (next_buf s))"
  by (simp add: NewBuffer_def new_Buffer_def new_store_def upd_buf_def SetName_def
      crunch_NewBuffer_def crunch_ByteCapacity_def zero_Buffer_def)

lemma same_links_root_of: "same_links s s1 \<Longrightarrow> root_of s a r \<Longrightarrow> root_of s1 a r"
  by (rule root_of_cong) (simp_all add: same_links_def)

lemma Seek_chain:
  assumes chain: "root_of s a r" and store: "buffer (bufs s r) = Some k"
    and op: "\<not> closed (bufs s r)"
  shows "\<exists>s1. Seek s (Some a) to whence =
            Some (Inr (s1,
              (if whence = SeekStart then to
               else if whence = SeekCurrent then offset (bufs s a) + to
               else if whence = SeekEnd then crunch_ByteCapacity (stores s k) - to
               else offset (bufs s a)), None)) \<and>
          offset (bufs s1 a) =
              (if whence = SeekStart then to
               else if whence = SeekCurrent then offset (bufs s a) + to
               else if whence = SeekEnd then crunch_ByteCapacity (stores s k) - to
               else offset (bufs s a)) \<and>
          (\<forall>x. x \<noteq> a \<longrightarrow> offset (bufs s1 x) = offset (bufs s x)) \<and>
          same_links s s1"
proof -
  obtain s0 where s0: "Buffer_acc s (Some a) = Some (Inr (s0, Some k))" "only_lengths s s0"
    "length_fld (bufs s0 a) = crunch_ByteCapacity (stores s k)"
    using Buffer_acc_chain [OF chain store] by blast
  have cl: "Closed s (Some a) = Some (Inr False)"
    using Closed_chain [OF chain] op by simp
  have f: "stores s0 = stores s" "\<And>x. parent (bufs s0 x) = parent (bufs s x)"
    "\<And>x. buffer (bufs s0 x) = buffer (bufs s x)" "\<And>x. closed (bufs s0 x) = closed (bufs s x)"
    "\<And>x. offset (bufs s0 x) = offset (bufs s x)"
    using s0(2) by (simp_all add: only_lengths_def)
  show ?thesis
    by (simp add: Seek_def cl s0(1) s0(3) f Let_def ret_def upd_buf_def upd_store_def
        crunch_SeekByte_def same_links_def)
qed

lemma ReadOffset_at_end:
  assumes chain: "root_of s p r" and store: "buffer (bufs s r) = Some k"
    and op: "\<not> closed (bufs s r)"
  shows "\<exists>s1. ReadOffset s (Some p) dst (crunch_ByteCapacity (stores s k)) =
            Some (Inr (s1, dst, 0, None)) \<and> only_lengths s s1"
proof -
  obtain s0 where s0: "Buffer_acc s (Some p) = Some (Inr (s0, Some k))" "only_lengths s s0"
    "length_fld (bufs s0 p) = crunch_ByteCapacity (stores s k)"
    using Buffer_acc_chain [OF chain store] by blast
  have cl: "Closed s (Some p) = Some (Inr False)"
    using Closed_chain [OF chain] op by simp
  show ?thesis
    using s0(2) by (simp add: ReadOffset_def cl s0(1) s0(3) Let_def ret_def)
qed

lemma Read_at_end:
  assumes chain: "root_of s a r" and store: "buffer (bufs s r) = Some k"
    and op: "\<not> closed (bufs s r)"
    and at_end: "offset (bufs s a) = crunch_ByteCapacity (stores s k)"
  shows "\<exists>s1. Read s (Some a) dst = Some (Inr (s1, dst, 0, None)) \<and>
          offset (bufs s1 a) = offset (bufs s a)"
proof -
  have cl: "Closed s (Some a) = Some (Inr False)"
    using Closed_chain [OF chain] op by simp
  from chain show ?thesis
  proof (cases rule: root_of.cases)
    case root
    then have ar: "r = a" and pa: "parent (bufs s a) = None" by simp_all
    show ?thesis
      using store at_end
      by (simp add: Read_def cl pa ar Buffer_acc_root Let_def ret_def upd_buf_def)
  next
    case (ref p)
    obtain s1 where s1: "ReadOffset s (Some p) dst (crunch_ByteCapacity (stores s k)) =
            Some (Inr (s1, dst, 0, None))" "only_lengths s s1"
      using ReadOffset_at_end [OF ref(2) store op] by blast
    show ?thesis
      using s1(2) by (simp add: Read_def cl ref(1) at_end s1(1) ret_def upd_buf_def only_lengths_def)
  qed
qed

lemma Close_chain_gen:
  "root_of s a r \<Longrightarrow> only_closed s s' \<Longrightarrow>
   \<exists>s1. Close s' (Some a) = Some (Inr (s1, None)) \<and> only_closed s s1 \<and> closed (bufs s1 r)"
proof (induction arbitrary: s' rule: root_of.induct)
  case (root s a)
  then have "parent (bufs s' a) = None" by (simp add: only_closed_def)
  then have "Close s' (Some a) = Some (Inr (upd_buf s' a (\<lambda>x. x\<lparr>closed := True\<rparr>), None))"
    by (subst Close.simps) (simp add: upd_buf_def)
  then show ?case
    using root.prems by (simp add: only_closed_def upd_buf_def)
next
  case (ref s a p r)
  let ?s1 = "upd_buf s' a (\<lambda>x. x\<lparr>closed := True\<rparr>)"
  have oc: "only_closed s ?s1"
    using ref.prems by (simp add: only_closed_def upd_buf_def)
  have "parent (bufs ?s1 a) = Some p"
    using ref.hyps(1) oc by (simp add: only_closed_def)
  then have "Close s' (Some a) = Close ?s1 (Some p)"
    by (subst Close.simps) (simp add: Let_def)
  then show ?case
    using ref.IH [OF oc] by simp
qed

lemma only_closed_refl: "only_closed s s"
  by (simp add: only_closed_def)

lemma only_closed_root_of: "only_closed s s1 \<Longrightarrow> root_of s a r \<Longrightarrow> root_of s1 a r"
  by (rule root_of_cong) (simp_all add: only_closed_def)

lemma closed_ops:
  assumes chain: "root_of s b r" and cl: "closed (bufs s r)"
  shows "Closed s (Some b) = Some (Inr True)"
    and "Read s (Some b) dst = Some (Inr (s, dst, 0, Some EOF))"
    and "ReadOffset s (Some b) dst ofs = Some (Inr (s, dst, 0, Some EOF))"
    and "Write s (Some b) src = Some (Inr (s, 0, Some EOF))"
    and "WriteOffset s (Some b) src ofs = Some (Inr (s, 0, Some EOF))"
    and "Seek s (Some b) to whence = Some (Inr (s, 0, Some EOF))"
proof -
  show c: "Closed s (Some b) = Some (Inr True)"
    using Closed_chain [OF chain] cl by simp
  show "Read s (Some b) dst = Some (Inr (s, dst, 0, Some EOF))"
    by (simp add: Read_def c ret_def)
  show "ReadOffset s (Some b) dst ofs = Some (Inr (s, dst, 0, Some EOF))"
    by (simp add: ReadOffset_def c ret_def)
  show "Write s (Some b) src = Some (Inr (s, 0, Some EOF))"
    by (simp add: Write_def c ret_def)
  show "WriteOffset s (Some b) src ofs = Some (Inr (s, 0, Some EOF))"
    by (simp add: WriteOffset_def c ret_def)
  show "Seek s (Some b) to whence = Some (Inr (s, 0, Some EOF))"
    by (simp add: Seek_def c ret_def)
qed

lemma WriteOffset_root:
  assumes root: "parent (bufs s a) = None" "buffer (bufs s a) = Some k"
    and op: "\<not> closed (bufs s a)"
    and nonneg: "0 \<le> sint ofs"
    and fits: "sint ofs + int (length src) < 2 ^ 63"
    and cap: "length (buf (stores s k)) < 2 ^ 63"
  shows "WriteOffset s (Some a) src ofs =
    Some (Inr (s\<lparr>bufs := (bufs s)(a := (bufs s a)\<lparr>
                    length_fld := (if int (length (buf (stores s k))) < sint ofs + int (length src)
                                   then ofs + of_nat (length src)
                                   else of_nat (length (buf (stores s k))))\<rparr>),
                 stores := (stores s)(k := (stores s k)\<lparr>buf :=
                    take (nat (sint ofs)) (buf (stores s k))
                    @ replicate (nat (sint ofs) - length (buf (stores s k))) 0
                    @ src
                    @ drop (nat (sint ofs) + length src) (buf (stores s k))\<rparr>)\<rparr>,
               length src, None))"
proof -
  let ?L = "length (buf (stores s k))"
  have tg: "sint (ofs + of_nat (length src) - of_nat ?L) = sint ofs + int (length src) - int ?L"
    using sint_grow [OF nonneg fits cap] .
  show ?thesis
  proof (cases "int ?L < sint ofs + int (length src)")
    case True
    then show ?thesis
      using root op nonneg tg
      by (simp add: WriteOffset_def Closed_root Buffer_acc_root upd_buf_def upd_store_def
          crunch_ByteCapacity_def crunch_Grow_def crunch_WriteBytes_def Let_def ret_def lift_def)
  next
    case False
    then show ?thesis
      using root op nonneg tg
      by (simp add: WriteOffset_def Closed_root Buffer_acc_root upd_buf_def upd_store_def
          crunch_ByteCapacity_def crunch_Grow_def crunch_WriteBytes_def Let_def ret_def lift_def)
  qed
qed

lemma Reference_eq:
  "Reference s (Some r) =
     Inr (s\<lparr>bufs := (bufs s)(next_buf s := zero_Buffer\<lparr>parent := Some r\<rparr>),
              next_buf := Suc (next_buf s)\<rparr>, Some (next_buf s))"
  by (simp add: Reference_def new_Buffer_def upd_buf_def)

lemma fresh_root_facts:
  "parent (bufs fresh_root 0) = None" "buffer (bufs fresh_root 0) = Some 0"
  "closed (bufs fresh_root 0) = False" "offset (bufs fresh_root 0) = 0"
  "length_fld (bufs fresh_root 0) = 0"
  "buf (stores fresh_root 0) = []" "next_buf fresh_root = 1"
  by (simp_all add: fresh_root_def NewBuffer_eq init_state_def)

lemma seeded_root_facts:
  "parent (bufs seeded_root 0) = None" "buffer (bufs seeded_root 0) = Some 0"
  "closed (bufs seeded_root 0) = False" "offset (bufs seeded_root 0) = 0"
  "length_fld (bufs seeded_root 0) = 2"
  "buf (stores seeded_root 0) = [1, 2]" "next_buf seeded_root = 1"
  by (simp_all add: seeded_root_def NewBuffer_eq init_state_def)

lemma with_reference_facts:
  "parent (bufs with_reference 0) = None" "buffer (bufs with_reference 0) = Some 0"
  "closed (bufs with_reference 0) = False" "offset (bufs with_reference 0) = 0"
  "buf (stores with_reference 0) = [1, 2]"
  "parent (bufs with_reference 1) = Some 0" "buffer (bufs with_reference 1) = None"
  "offset (bufs with_reference 1) = 0" "length_fld (bufs with_reference 1) = 0"
  by (simp_all add: with_reference_def Reference_eq seeded_root_facts zero_Buffer_def)

lemma neg_offset_root_facts:
  "parent (bufs neg_offset_root 0) = None" "buffer (bufs neg_offset_root 0) = Some 0"
  "closed (bufs neg_offset_root 0) = False" "offset (bufs neg_offset_root 0) = - 1"
  "length_fld (bufs neg_offset_root 0) = 0"
  "buf (stores neg_offset_root 0) = []"
  by (simp_all add: neg_offset_root_def Seek_root [where k = 0] fresh_root_facts Let_def
      SeekStart_def crunch_ByteCapacity_def)

lemma written_length:
  "length (take p xs @ replicate (p - length xs) z @ src @ drop (p + length src) xs)
     = max (length xs) (p + length src)"
  by simp

lemma written_segment:
  "take (length src) (drop p (take p xs @ replicate (p - length xs) z @ src @ drop (p + length src) xs)) = src"
  by (cases "p \<le> length xs") simp_all

lemma written_prefix:
  "take (min p (length xs)) (take p xs @ replicate (p - length xs) z @ src @ drop (p + length src) xs)
     = take (min p (length xs)) xs"
  by (cases "p \<le> length xs") (simp_all add: min_def)

lemma root_of_with_reference: "root_of with_reference 1 0" "root_of with_reference 0 0"
proof -
  show r: "root_of with_reference 0 0"
    by (rule root_of.root) (simp add: with_reference_facts)
  show "root_of with_reference 1 0"
    by (rule root_of.ref [OF with_reference_facts(6) r])
qed

lemma closed_root_facts:
  "parent (bufs closed_root 0) = None" "buffer (bufs closed_root 0) = Some 0"
  "closed (bufs closed_root 0) = True" "buf (stores closed_root 0) = [1, 2]"
  "length_fld (bufs closed_root 0) = 2"
proof -
  have "Close seeded_root (Some 0) =
          Some (Inr (upd_buf seeded_root 0 (\<lambda>x. x\<lparr>closed := True\<rparr>), None))"
    by (subst Close.simps) (simp add: seeded_root_facts upd_buf_def)
  then have e: "closed_root = upd_buf seeded_root 0 (\<lambda>x. x\<lparr>closed := True\<rparr>)"
    by (simp add: closed_root_def)
  show "parent (bufs closed_root 0) = None" "buffer (bufs closed_root 0) = Some 0"
    "closed (bufs closed_root 0) = True" "buf (stores closed_root 0) = [1, 2]"
    "length_fld (bufs closed_root 0) = 2"
    by (simp_all add: e upd_buf_def seeded_root_facts)
qed

lemma le_bytes_U16_1: "le_bytes 2 (1 :: 16 word) = [1, 0]"
  by (simp add: le_bytes_def upt_rec)

lemma WriteAbstract_U16_fresh:
  "\<exists>s'. WriteAbstract fresh_root (Some 0) (U16 1) = Some (Inr (s', 2, None)) \<and>
        buf (stores s' 0) = [1, 0]"
proof -
  have e: "encode_switch (U16 1) = Inr (Inr \<lparr>buf = [1, 0], off = 0\<rparr>)"
    by (simp add: encode_switch_def grow_write_LE_def then_store_def crunch_Grow_def
        crunch_NewBuffer_def crunch_WriteLE_def crunch_WriteBytes_def le_bytes_U16_1 Let_def)
  have h: "parent (bufs fresh_root 0) = None" "buffer (bufs fresh_root 0) = Some 0"
    "\<not> closed (bufs fresh_root 0)" "0 \<le> sint (offset (bufs fresh_root 0))"
    "sint (offset (bufs fresh_root 0)) + int (length [1, 0 :: byte]) < 2 ^ 63"
    "length (buf (stores fresh_root 0)) < 2 ^ 63"
    by (simp_all add: fresh_root_facts)
  show ?thesis
    by (simp add: WriteAbstract_def e lift_def crunch_Bytes_def Write_root [OF h]
        fresh_root_facts)
qed

lemma WriteAbstract_GoByte_fresh:
  "\<exists>s'. WriteAbstract fresh_root (Some 0) (GoByte v) = Some (Inr (s', 1, None)) \<and>
        buf (stores s' 0) = [v]"
proof -
  have e: "encode_switch (GoByte v) = Inr (Inr \<lparr>buf = [v], off = 0\<rparr>)"
    by (simp add: encode_switch_def then_store_def crunch_Grow_def
        crunch_NewBuffer_def crunch_WriteByte_def crunch_WriteBytes_def Let_def)
  have h: "parent (bufs fresh_root 0) = None" "buffer (bufs fresh_root 0) = Some 0"
    "\<not> closed (bufs fresh_root 0)" "0 \<le> sint (offset (bufs fresh_root 0))"
    "sint (offset (bufs fresh_root 0)) + int (length [v]) < 2 ^ 63"
    "length (buf (stores fresh_root 0)) < 2 ^ 63"
    by (simp_all add: fresh_root_facts)
  show ?thesis
    by (simp add: WriteAbstract_def e lift_def crunch_Bytes_def Write_root [OF h]
        fresh_root_facts)
qed

lemma Copy_root:
  assumes root: "buffer (bufs s a) = Some k" and alloc: "a < next_buf s" "k < next_store s"
  shows "\<exists>s'. Copy s (Some a) = Inr (s', Some (next_buf s)) \<and>
           parent (bufs s' (next_buf s)) = None \<and>
           buffer (bufs s' (next_buf s)) = Some (next_store s) \<and>
           next_store s \<noteq> k \<and> next_buf s \<noteq> a \<and>
           buf (stores s' (next_store s)) = buf (stores s k) \<and>
           length_fld (bufs s' (next_buf s)) = length_fld (bufs s a) \<and>
           bufs s' a = bufs s a \<and> stores s' k = stores s k"
  using assms
  by (simp add: Copy_def new_Buffer_def new_store_def upd_buf_def crunch_NewBuffer_def
      crunch_Bytes_def zero_Buffer_def)

section \<open>Claims\<close>

text \<open>
  Claim C1. Writing a byte sequence \<open>src\<close> to a freshly created root (\<^verbatim>\<open>NewBuffer\<close> without
  initial data) reports \<open>length src\<close> bytes and no error; after \<^verbatim>\<open>Seek(0, io.SeekStart)\<close>
  a \<^verbatim>\<open>Read\<close> into a destination of that length returns \<open>length src\<close> bytes, no error,
  and the destination holds exactly \<open>src\<close>. A Go slice has fewer than \<open>2^63\<close> elements.
\<close>

theorem C1_write_read_roundtrip:
  assumes len: "length src < 2 ^ 63" and dst: "length dst = length src"
  shows "\<exists>s1 b s2 s3 s4.
           NewBuffer s nm [] = Inr (s1, b) \<and>
           Write s1 b src = Some (Inr (s2, length src, None)) \<and>
           Seek s2 b 0 SeekStart = Some (Inr (s3, 0, None)) \<and>
           Read s3 b dst = Some (Inr (s4, src, length src, None))"
proof -
  let ?a = "next_buf s" and ?k = "next_store s"
  obtain s1 where s1: "NewBuffer s nm [] = Inr (s1, Some ?a)"
    and r1: "parent (bufs s1 ?a) = None" "buffer (bufs s1 ?a) = Some ?k"
      "\<not> closed (bufs s1 ?a)" "offset (bufs s1 ?a) = 0" "buf (stores s1 ?k) = []"
    by (simp add: NewBuffer_eq)
  have "\<exists>s2. Write s1 (Some ?a) src = Some (Inr (s2, length src, None)) \<and>
          parent (bufs s2 ?a) = None \<and> buffer (bufs s2 ?a) = Some ?k \<and>
          \<not> closed (bufs s2 ?a) \<and> buf (stores s2 ?k) = src"
    using r1 len by (subst Write_root [where k = ?k]) simp_all
  then obtain s2 where s2: "Write s1 (Some ?a) src = Some (Inr (s2, length src, None))"
    and r2: "parent (bufs s2 ?a) = None" "buffer (bufs s2 ?a) = Some ?k"
      "\<not> closed (bufs s2 ?a)" "buf (stores s2 ?k) = src"
    by blast
  have "\<exists>s3. Seek s2 (Some ?a) 0 SeekStart = Some (Inr (s3, 0, None)) \<and>
          parent (bufs s3 ?a) = None \<and> buffer (bufs s3 ?a) = Some ?k \<and>
          \<not> closed (bufs s3 ?a) \<and> buf (stores s3 ?k) = src \<and> offset (bufs s3 ?a) = 0"
    using r2 by (subst Seek_root [where k = ?k]) (simp_all add: Let_def)
  then obtain s3 where s3: "Seek s2 (Some ?a) 0 SeekStart = Some (Inr (s3, 0, None))"
    and r3: "parent (bufs s3 ?a) = None" "buffer (bufs s3 ?a) = Some ?k"
      "\<not> closed (bufs s3 ?a)" "buf (stores s3 ?k) = src" "offset (bufs s3 ?a) = 0"
    by blast
  have "\<exists>s4. Read s3 (Some ?a) dst = Some (Inr (s4, src, length src, None))"
    using r3 len dst by (subst Read_root [where k = ?k]) (simp_all add: Let_def)
  with s1 s2 s3 show ?thesis by blast
qed

theorem C1_write_read_roundtrip_witness:
  "length [1, 2, 3 :: byte] < 2 ^ 63 \<and> length [0, 0, 0 :: byte] = length [1, 2, 3 :: byte] \<and>
   (\<exists>s1 b s2 s3 s4.
     NewBuffer init_state ''r'' [] = Inr (s1, b) \<and>
     Write s1 b [1, 2, 3] = Some (Inr (s2, length [1, 2, 3 :: byte], None)) \<and>
     Seek s2 b 0 SeekStart = Some (Inr (s3, 0, None)) \<and>
     Read s3 b [0, 0, 0] = Some (Inr (s4, [1, 2, 3], length [1, 2, 3 :: byte], None)))"
  using C1_write_read_roundtrip [of "[1, 2, 3]" "[0, 0, 0]" init_state "''r''"] by simp

text \<open>
  Claim C2, as amended. On a root that is not closed, whose offset \<open>o\<close> is not negative and
  with \<open>o + n\<close> within \<^verbatim>\<open>int64\<close>, \<^verbatim>\<open>Write\<close> of \<open>n\<close> bytes returns \<open>n\<close> and no error; the
  store's capacity and the \<^verbatim>\<open>length\<close> field become \<open>max L (o + n)\<close>, where \<open>L\<close> is the
  capacity before the call (the logical length the accessor refreshes): exactly \<open>o + n\<close>
  when \<open>o + n > L\<close>, and never less than \<open>L\<close>. The bytes lie at \<open>o\<close>, the bytes before
  \<open>o\<close> are kept, and the offset advances by \<open>n\<close>.
\<close>

theorem C2_write_grows:
  assumes root: "parent (bufs s a) = None" "buffer (bufs s a) = Some k"
    and op: "\<not> closed (bufs s a)"
    and nonneg: "0 \<le> sint (offset (bufs s a))"
    and fits: "sint (offset (bufs s a)) + int (length src) < 2 ^ 63"
    and cap: "length (buf (stores s k)) < 2 ^ 63"
  shows "\<exists>s'. Write s (Some a) src = Some (Inr (s', length src, None)) \<and>
           length (buf (stores s' k)) =
             max (length (buf (stores s k))) (nat (sint (offset (bufs s a))) + length src) \<and>
           length_fld (bufs s' a) = of_nat (length (buf (stores s' k))) \<and>
           sint (length_fld (bufs s' a)) = int (length (buf (stores s' k))) \<and>
           offset (bufs s' a) = offset (bufs s a) + of_nat (length src) \<and>
           take (length src) (drop (nat (sint (offset (bufs s a)))) (buf (stores s' k))) = src \<and>
           take (min (nat (sint (offset (bufs s a)))) (length (buf (stores s k))))
                (buf (stores s' k)) =
             take (min (nat (sint (offset (bufs s a)))) (length (buf (stores s k))))
                (buf (stores s k))"
proof -
  let ?o = "nat (sint (offset (bufs s a)))"
  let ?L = "length (buf (stores s k))"
  let ?b = "take ?o (buf (stores s k)) @ replicate (?o - ?L) 0 @ src
              @ drop (?o + length src) (buf (stores s k))"
  let ?f = "if int ?L < sint (offset (bufs s a)) + int (length src)
                then offset (bufs s a) + of_nat (length src) else of_nat ?L"
  define s' where "s' = s\<lparr>bufs := (bufs s)(a := (bufs s a)\<lparr>length_fld := ?f,
                    offset := offset (bufs s a) + of_nat (length src)\<rparr>),
                 stores := (stores s)(k := (stores s k)\<lparr>buf := ?b\<rparr>)\<rparr>"
  have oo: "of_nat ?o = offset (bufs s a)"
    using nonneg by (rule of_nat_nat_sint)
  have len: "length ?b = max ?L (?o + length src)"
    by (rule written_length)
  have lt: "max ?L (?o + length src) < 2 ^ 63"
    using fits cap nonneg by (simp add: max_def) linarith
  have fld: "?f = (of_nat (max ?L (?o + length src)) :: 64 word)"
  proof (cases "int ?L < sint (offset (bufs s a)) + int (length src)")
    case True
    then have "max ?L (?o + length src) = ?o + length src"
      using nonneg by linarith
    then have "(of_nat (max ?L (?o + length src)) :: 64 word) = of_nat ?o + of_nat (length src)"
      by simp
    with True show ?thesis by (simp only: oo if_True)
  next
    case False
    then have "max ?L (?o + length src) = ?L"
      using nonneg by linarith
    with False show ?thesis by (simp only: if_False)
  qed
  have w: "Write s (Some a) src = Some (Inr (s', length src, None))"
    unfolding s'_def by (rule Write_root [OF root op nonneg fits cap])
  have b': "buf (stores s' k) = ?b" by (simp add: s'_def)
  have f': "length_fld (bufs s' a) = ?f" by (simp add: s'_def)
  have o': "offset (bufs s' a) = offset (bufs s a) + of_nat (length src)" by (simp add: s'_def)
  have "length (buf (stores s' k)) = max ?L (?o + length src)"
    by (simp only: b' len)
  moreover have "length_fld (bufs s' a) = of_nat (length (buf (stores s' k)))"
    by (simp only: b' f' fld len)
  moreover have "sint (length_fld (bufs s' a)) = int (length (buf (stores s' k)))"
    by (simp only: b' f' fld len sint_of_nat64 [OF lt])
  moreover have "take (length src) (drop ?o (buf (stores s' k))) = src"
    by (simp only: b' written_segment)
  moreover have "take (min ?o ?L) (buf (stores s' k)) = take (min ?o ?L) (buf (stores s k))"
    by (simp only: b' written_prefix)
  ultimately show ?thesis
    using w o' by blast
qed

theorem C2_write_grows_witness:
  "parent (bufs fresh_root 0) = None \<and> buffer (bufs fresh_root 0) = Some 0 \<and>
   \<not> closed (bufs fresh_root 0) \<and> 0 \<le> sint (offset (bufs fresh_root 0)) \<and>
   sint (offset (bufs fresh_root 0)) + int (length [1, 2, 3 :: byte]) < 2 ^ 63 \<and>
   length (buf (stores fresh_root 0)) < 2 ^ 63 \<and>
   (\<exists>s'. Write fresh_root (Some 0) [1, 2, 3] = Some (Inr (s', length [1, 2, 3 :: byte], None)) \<and>
         length (buf (stores s' 0)) = 3 \<and>
         length_fld (bufs s' 0) = 3 \<and>
         offset (bufs s' 0) = 3 \<and>
         buf (stores s' 0) = [1, 2, 3])"
proof -
  have h: "parent (bufs fresh_root 0) = None" "buffer (bufs fresh_root 0) = Some 0"
    "\<not> closed (bufs fresh_root 0)" "0 \<le> sint (offset (bufs fresh_root 0))"
    "sint (offset (bufs fresh_root 0)) + int (length [1, 2, 3 :: byte]) < 2 ^ 63"
    "length (buf (stores fresh_root 0)) < 2 ^ 63"
    by (simp_all add: fresh_root_facts)
  show ?thesis
    using h C2_write_grows [OF h] by (auto simp: fresh_root_facts)
qed

text \<open>
  Claim C2 as stated, for every cursor offset, fails at a negative offset, which
  \<^verbatim>\<open>Seek(-1, io.SeekStart)\<close> sets: with \<open>L = 0\<close>, \<open>o = -1\<close> and \<open>n = 3\<close> (so \<open>o + n > L\<close>)
  the write at \<open>o\<close> leaves the store and the call panics instead of storing the bytes and
  advancing the offset.
\<close>

theorem C2_negative_offset_counterexample:
  "parent (bufs neg_offset_root 0) = None \<and> \<not> closed (bufs neg_offset_root 0) \<and>
   sint (offset (bufs neg_offset_root 0)) = - 1 \<and>
   length (buf (stores neg_offset_root 0)) = 0 \<and>
   Write neg_offset_root (Some 0) [1, 2, 3] = Some (Inl SliceBounds)"
  by (simp add: neg_offset_root_facts Write_def Closed_root Buffer_acc_root upd_buf_def
      upd_store_def crunch_ByteCapacity_def crunch_Grow_def crunch_WriteBytes_def Let_def
      ret_def lift_def)

text \<open>
  Claim C3. Let \<open>r\<close> be an allocated root that is not closed and \<open>c\<close> the reference that
  \<^verbatim>\<open>r.Reference()\<close> returns. \<^verbatim>\<open>c.Write(src)\<close>, at \<open>c\<close>'s offset 0, returns \<open>length src\<close> and
  no error, advances the offset of \<open>c\<close> by \<open>length src\<close> and leaves the offset of \<open>r\<close> as
  it was; a read on \<open>r\<close> at offset 0 (\<^verbatim>\<open>Seek(0, io.SeekStart)\<close>, then \<^verbatim>\<open>Read\<close> of
  \<open>length src\<close> bytes) returns exactly \<open>src\<close>.
\<close>

theorem C3_reference_aliasing:
  assumes root: "parent (bufs s r) = None" "buffer (bufs s r) = Some k"
    and op: "\<not> closed (bufs s r)"
    and alloc: "r < next_buf s"
    and cap: "length (buf (stores s k)) < 2 ^ 63"
    and len: "length src < 2 ^ 63" and dst: "length dst = length src"
  shows "\<exists>s1 c s2 s3 s4.
           Reference s (Some r) = Inr (s1, Some c) \<and>
           Write s1 (Some c) src = Some (Inr (s2, length src, None)) \<and>
           offset (bufs s2 c) = of_nat (length src) \<and>
           offset (bufs s2 r) = offset (bufs s r) \<and>
           Seek s2 (Some r) 0 SeekStart = Some (Inr (s3, 0, None)) \<and>
           Read s3 (Some r) dst = Some (Inr (s4, src, length src, None))"
proof -
  let ?c = "next_buf s"
  let ?L = "length (buf (stores s k))"
  have ne: "r \<noteq> ?c" using alloc by simp
  obtain s1 where s1: "Reference s (Some r) = Inr (s1, Some ?c)"
    and r1: "parent (bufs s1 r) = None" "buffer (bufs s1 r) = Some k" "\<not> closed (bufs s1 r)"
      "offset (bufs s1 r) = offset (bufs s r)" "buf (stores s1 k) = buf (stores s k)"
    and c1: "parent (bufs s1 ?c) = Some r" "offset (bufs s1 ?c) = 0"
    using root op ne by (simp add: Reference_eq zero_Buffer_def)
  have cl: "Closed s1 (Some ?c) = Some (Inr False)"
    using c1(1) r1 by (simp add: Closed_ref Closed_root)
  have wo: "\<exists>s'. WriteOffset s1 (Some r) src 0 = Some (Inr (s', length src, None)) \<and>
          parent (bufs s' r) = None \<and> buffer (bufs s' r) = Some k \<and> \<not> closed (bufs s' r) \<and>
          offset (bufs s' r) = offset (bufs s r) \<and>
          offset (bufs s' ?c) = 0 \<and>
          buf (stores s' k) = src @ drop (length src) (buf (stores s k))"
    using r1 c1 ne cap len by (subst WriteOffset_root [where k = k]) simp_all
  then obtain s' where s': "WriteOffset s1 (Some r) src 0 = Some (Inr (s', length src, None))"
    and r': "parent (bufs s' r) = None" "buffer (bufs s' r) = Some k" "\<not> closed (bufs s' r)"
      "offset (bufs s' r) = offset (bufs s r)" "offset (bufs s' ?c) = 0"
      "buf (stores s' k) = src @ drop (length src) (buf (stores s k))"
    by blast
  let ?s2 = "upd_buf s' ?c (\<lambda>x. x\<lparr>offset := offset x + of_nat (length src)\<rparr>)"
  have w: "Write s1 (Some ?c) src = Some (Inr (?s2, length src, None))"
    by (simp add: Write_def cl c1 s' ret_def)
  have r2: "parent (bufs ?s2 r) = None" "buffer (bufs ?s2 r) = Some k" "\<not> closed (bufs ?s2 r)"
      "offset (bufs ?s2 r) = offset (bufs s r)" "offset (bufs ?s2 ?c) = of_nat (length src)"
      "buf (stores ?s2 k) = src @ drop (length src) (buf (stores s k))"
    using r' ne by (simp_all add: upd_buf_def)
  have "\<exists>s3. Seek ?s2 (Some r) 0 SeekStart = Some (Inr (s3, 0, None)) \<and>
          parent (bufs s3 r) = None \<and> buffer (bufs s3 r) = Some k \<and>
          \<not> closed (bufs s3 r) \<and> buf (stores s3 k) = src @ drop (length src) (buf (stores s k)) \<and>
          offset (bufs s3 r) = 0"
    using r2 by (subst Seek_root [where k = k]) (simp_all add: Let_def)
  then obtain s3 where s3: "Seek ?s2 (Some r) 0 SeekStart = Some (Inr (s3, 0, None))"
    and r3: "parent (bufs s3 r) = None" "buffer (bufs s3 r) = Some k"
      "\<not> closed (bufs s3 r)" "buf (stores s3 k) = src @ drop (length src) (buf (stores s k))"
      "offset (bufs s3 r) = 0"
    by blast
  have l3: "length (buf (stores s3 k)) < 2 ^ 63"
    using r3(4) cap len by simp
  have "\<exists>s4. Read s3 (Some r) dst = Some (Inr (s4, src, length src, None))"
    using r3 dst l3 by (subst Read_root [where k = k]) (simp_all add: Let_def)
  with s1 w r2 s3 show ?thesis by blast
qed

theorem C3_reference_aliasing_witness:
  "parent (bufs seeded_root 0) = None \<and> buffer (bufs seeded_root 0) = Some 0 \<and>
   \<not> closed (bufs seeded_root 0) \<and> 0 < next_buf seeded_root \<and>
   length (buf (stores seeded_root 0)) < 2 ^ 63 \<and>
   length [7, 8, 9 :: byte] < 2 ^ 63 \<and> length [0, 0, 0 :: byte] = length [7, 8, 9 :: byte] \<and>
   (\<exists>s1 c s2 s3 s4.
           Reference seeded_root (Some 0) = Inr (s1, Some c) \<and>
           Write s1 (Some c) [7, 8, 9] = Some (Inr (s2, length [7, 8, 9 :: byte], None)) \<and>
           offset (bufs s2 c) = of_nat (length [7, 8, 9 :: byte]) \<and>
           offset (bufs s2 0) = offset (bufs seeded_root 0) \<and>
           Seek s2 (Some 0) 0 SeekStart = Some (Inr (s3, 0, None)) \<and>
           Read s3 (Some 0) [0, 0, 0] = Some (Inr (s4, [7, 8, 9], length [7, 8, 9 :: byte], None)))"
proof -
  have h: "parent (bufs seeded_root 0) = None" "buffer (bufs seeded_root 0) = Some 0"
    "\<not> closed (bufs seeded_root 0)" "0 < next_buf seeded_root"
    "length (buf (stores seeded_root 0)) < 2 ^ 63"
    "length [7, 8, 9 :: byte] < 2 ^ 63" "length [0, 0, 0 :: byte] = length [7, 8, 9 :: byte]"
    by (simp_all add: seeded_root_facts)
  show ?thesis
    using h C3_reference_aliasing [OF h] by blast
qed

text \<open>
  Claim C4, as amended. On every buffer whose chain ends at a root that is not closed,
  \<^verbatim>\<open>Seek(0, io.SeekEnd)\<close> returns the capacity and no error, and the \<^verbatim>\<open>Read\<close> that follows
  returns zero bytes and \<^emph>\<open>no\<close> error, leaving the destination as it was: a plain
  zero-byte success, not \<^verbatim>\<open>io.EOF\<close>.
\<close>

theorem C4_read_at_end_no_eof:
  assumes chain: "root_of s a r" and store: "buffer (bufs s r) = Some k"
    and op: "\<not> closed (bufs s r)"
  shows "\<exists>s1 s2. Seek s (Some a) 0 SeekEnd =
                   Some (Inr (s1, crunch_ByteCapacity (stores s k), None)) \<and>
                 Read s1 (Some a) dst = Some (Inr (s2, dst, 0, None))"
proof -
  obtain s1 where s1: "Seek s (Some a) 0 SeekEnd =
       Some (Inr (s1, crunch_ByteCapacity (stores s k), None))"
     "offset (bufs s1 a) = crunch_ByteCapacity (stores s k)" "same_links s s1"
    using Seek_chain [OF chain store op, of 0 SeekEnd]
    by (auto simp: SeekStart_def SeekCurrent_def SeekEnd_def)
  have c1: "root_of s1 a r" using same_links_root_of [OF s1(3) chain] .
  have f1: "buffer (bufs s1 r) = Some k" "\<not> closed (bufs s1 r)"
    "crunch_ByteCapacity (stores s1 k) = crunch_ByteCapacity (stores s k)"
    using s1(3) store op by (simp_all add: same_links_def crunch_ByteCapacity_def)
  obtain s2 where "Read s1 (Some a) dst = Some (Inr (s2, dst, 0, None))"
    using Read_at_end [OF c1 f1(1) f1(2)] s1(2) f1(3) by auto
  with s1(1) show ?thesis by blast
qed

theorem C4_read_at_end_no_eof_witness:
  "root_of with_reference 1 0 \<and> buffer (bufs with_reference 0) = Some 0 \<and>
   \<not> closed (bufs with_reference 0) \<and>
   (\<exists>s1 s2. Seek with_reference (Some 1) 0 SeekEnd = Some (Inr (s1, 2, None)) \<and>
            Read s1 (Some 1) [0] = Some (Inr (s2, [0], 0, None)))"
proof -
  have h: "root_of with_reference 1 0" "buffer (bufs with_reference 0) = Some 0"
    "\<not> closed (bufs with_reference 0)"
    by (rule root_of_with_reference(1)) (simp_all add: with_reference_facts)
  show ?thesis
    using h C4_read_at_end_no_eof [OF h, of "[0]"]
    by (simp add: with_reference_facts crunch_ByteCapacity_def del: One_nat_def)
qed

text \<open>
  Claim C4 as stated fails: on the root seeded with two bytes, after \<^verbatim>\<open>Seek(0, io.SeekEnd)\<close>
  a \<^verbatim>\<open>Read\<close> into a one-byte destination returns \<open>(0, nil)\<close>, by the guard
  \<^verbatim>\<open>if toRead == 0 { return 0, nil }\<close>.
\<close>

theorem C4_read_at_end_counterexample:
  "closed (bufs at_end_root 0) = False \<and>
   outcome (Seek seeded_root (Some 0) 0 SeekEnd) = Some (Inr (2, None)) \<and>
   outcome (Read at_end_root (Some 0) [0]) = Some (Inr ([0], 0, None))"
  by (simp add: at_end_root_def outcome_def Seek_root [where k = 0] Read_root [where k = 0]
      seeded_root_facts Let_def SeekStart_def SeekCurrent_def SeekEnd_def crunch_ByteCapacity_def)

text \<open>
  Claim C5 at the failing input: \<^verbatim>\<open>Seek(5, 7)\<close> on an open root. The \<^verbatim>\<open>switch\<close> of this
  iteration has no \<^verbatim>\<open>default\<close> branch: the call returns the current offset and a \<^verbatim>\<open>nil\<close>
  error. The offset is unchanged, as the claim says, but no invalid-seek-mode error is
  returned.
\<close>

theorem C5_invalid_whence_no_error:
  "outcome (Seek seeded_root (Some 0) 5 7) = Some (Inr (0, None)) \<and>
   offset (bufs (fst (projr (the (Seek seeded_root (Some 0) 5 7)))) 0) =
     offset (bufs seeded_root 0)"
  by (simp add: outcome_def Seek_root [where k = 0] seeded_root_facts Let_def
      SeekStart_def SeekCurrent_def SeekEnd_def)

text \<open>
  Claim C6, as amended. Let \<open>a\<close> and \<open>b\<close> be buffers whose chains end at the same root \<open>r\<close>.
  \<^verbatim>\<open>a.Close()\<close> returns \<^verbatim>\<open>nil\<close>; afterwards \<^verbatim>\<open>Closed()\<close> is true on \<open>r\<close> and on \<open>b\<close>, and
  \<^verbatim>\<open>Read\<close>, \<^verbatim>\<open>ReadOffset\<close>, \<^verbatim>\<open>Write\<close>, \<^verbatim>\<open>WriteOffset\<close> and \<^verbatim>\<open>Seek\<close> on \<open>b\<close> return zero
  and \<^verbatim>\<open>io.EOF\<close> at once and leave the whole state as it was.
\<close>

theorem C6_close_cascades:
  assumes a: "root_of s a r" and b: "root_of s b r"
  shows "\<exists>s1. Close s (Some a) = Some (Inr (s1, None)) \<and>
           Closed s1 (Some r) = Some (Inr True) \<and>
           Closed s1 (Some b) = Some (Inr True) \<and>
           Read s1 (Some b) dst = Some (Inr (s1, dst, 0, Some EOF)) \<and>
           ReadOffset s1 (Some b) dst ofs = Some (Inr (s1, dst, 0, Some EOF)) \<and>
           Write s1 (Some b) src = Some (Inr (s1, 0, Some EOF)) \<and>
           WriteOffset s1 (Some b) src ofs = Some (Inr (s1, 0, Some EOF)) \<and>
           Seek s1 (Some b) to whence = Some (Inr (s1, 0, Some EOF))"
proof -
  obtain s1 where s1: "Close s (Some a) = Some (Inr (s1, None))" "only_closed s s1"
    "closed (bufs s1 r)"
    using Close_chain_gen [OF a only_closed_refl] by blast
  have b1: "root_of s1 b r" using only_closed_root_of [OF s1(2) b] .
  have r1: "root_of s1 r r"
    using root_of_is_root [OF b1] by (rule root_of.root)
  show ?thesis
    using s1(1) closed_ops [OF b1 s1(3)] closed_ops(1) [OF r1 s1(3)] by simp
qed

theorem C6_close_cascades_witness:
  "root_of with_reference 1 0 \<and>
   (\<exists>s1. Close with_reference (Some 1) = Some (Inr (s1, None)) \<and>
           Closed s1 (Some 0) = Some (Inr True) \<and>
           Closed s1 (Some 1) = Some (Inr True) \<and>
           Read s1 (Some 1) [0] = Some (Inr (s1, [0], 0, Some EOF)) \<and>
           ReadOffset s1 (Some 1) [0] 0 = Some (Inr (s1, [0], 0, Some EOF)) \<and>
           Write s1 (Some 1) [5] = Some (Inr (s1, 0, Some EOF)) \<and>
           WriteOffset s1 (Some 1) [5] 0 = Some (Inr (s1, 0, Some EOF)) \<and>
           Seek s1 (Some 1) 0 SeekStart = Some (Inr (s1, 0, Some EOF)))"
  using root_of_with_reference(1)
    C6_close_cascades [OF root_of_with_reference(1) root_of_with_reference(1),
      of "[0]" 0 "[5]" 0 SeekStart]
  by (simp del: One_nat_def)

text \<open>
  Claim C6 as stated, for any subsequent operation, fails for the methods without a
  closedness check: \<^verbatim>\<open>Reset()\<close> on the closed seeded root returns normally and wipes the
  logical length and the stored bytes.
\<close>

theorem C6_reset_after_close_counterexample:
  "Closed closed_root (Some 0) = Some (Inr True) \<and>
   buf (stores closed_root 0) = [1, 2] \<and>
   length_fld (bufs closed_root 0) = 2 \<and>
   Reset closed_root (Some 0) = Some (Inr (projr (the (Reset closed_root (Some 0))))) \<and>
   buf (stores (projr (the (Reset closed_root (Some 0)))) 0) = [] \<and>
   length_fld (bufs (projr (the (Reset closed_root (Some 0)))) 0) = 0"
proof -
  have "Reset closed_root (Some 0) =
      Some (Inr (upd_store (upd_buf (upd_buf closed_root 0 (\<lambda>x. x\<lparr>length_fld := 0\<rparr>)) 0
                    (\<lambda>x. x\<lparr>offset := 0\<rparr>)) 0 (crunch_Reset (stores closed_root 0))))"
    by (subst Reset.simps) (simp add: closed_root_facts upd_buf_def upd_store_def Let_def)
  then show ?thesis
    by (simp add: Closed_root closed_root_facts upd_buf_def upd_store_def crunch_Reset_def)
qed

text \<open>
  Claim C7 at the failing input: \<^verbatim>\<open>Copy()\<close> on a reference. \<^verbatim>\<open>Bytes()\<close> resolves the root's
  store through the accessor and returns the shared bytes, but \<^verbatim>\<open>Copy\<close> reads the
  receiver's own \<^verbatim>\<open>buffer\<close> field, which is \<^verbatim>\<open>nil\<close> on a reference, and panics.
\<close>

theorem C7_copy_of_reference_panics:
  "parent (bufs with_reference 1) = Some 0 \<and>
   outcome (Bytes with_reference (Some 1)) = Some (Inr [1, 2]) \<and>
   Copy with_reference (Some 1) = Inl NilPointer"
proof -
  obtain s1 where "Buffer_acc with_reference (Some 1) = Some (Inr (s1, Some 0))"
    "only_lengths with_reference s1"
    using Buffer_acc_chain [OF root_of_with_reference(1) with_reference_facts(2)] by blast
  then have "outcome (Bytes with_reference (Some 1)) = Some (Inr [1, 2])"
    by (simp add: Bytes_def outcome_def ret_def only_lengths_def crunch_Bytes_def
        with_reference_facts)
  moreover have "Copy with_reference (Some 1) = Inl NilPointer"
    by (simp add: Copy_def new_Buffer_def with_reference_def Reference_eq seeded_root_facts
        zero_Buffer_def)
  ultimately show ?thesis
    using with_reference_facts(6) by simp
qed

text \<open>
  Claim C8 at the failing input: on a fresh root \<^verbatim>\<open>WriteAbstract("AB")\<close> reaches
  \<^verbatim>\<open>case []byte, string\<close> and panics in \<^verbatim>\<open>data.([]byte)\<close>, so the scenario stops at its
  first call. \<^verbatim>\<open>WriteAbstract(uint16(1))\<close> alone writes the bytes 1, 0 and returns 2.
\<close>

theorem C8_string_write_panics:
  "WriteAbstract fresh_root (Some 0) (GoString ''AB'') = Some (Inl InterfaceConversion) \<and>
   outcome (WriteAbstract fresh_root (Some 0) (U16 1)) = Some (Inr (2, None)) \<and>
   buf (stores (fst (projr (the (WriteAbstract fresh_root (Some 0) (U16 1))))) 0) = [1, 0]"
proof -
  obtain s' where "WriteAbstract fresh_root (Some 0) (U16 1) = Some (Inr (s', 2, None))"
    "buf (stores s' 0) = [1, 0]"
    using WriteAbstract_U16_fresh by blast
  then show ?thesis
    by (simp add: outcome_def WriteAbstract_def [of _ _ "GoString _"] encode_switch_def
        lift_def Let_def)
qed

text \<open>
  Claim C9 at the failing inputs: for an \<^verbatim>\<open>int\<close>, a \<^verbatim>\<open>uint\<close> and a \<^verbatim>\<open>bool\<close> the type
  assertion \<^verbatim>\<open>data.(byte)\<close> panics; only a \<^verbatim>\<open>byte\<close> is written as one byte.
\<close>

theorem C9_machine_word_write_panics:
  "WriteAbstract fresh_root (Some 0) (GoInt 1) = Some (Inl InterfaceConversion) \<and>
   WriteAbstract fresh_root (Some 0) (GoUint 1) = Some (Inl InterfaceConversion) \<and>
   WriteAbstract fresh_root (Some 0) (GoBool True) = Some (Inl InterfaceConversion) \<and>
   outcome (WriteAbstract fresh_root (Some 0) (GoByte 65)) = Some (Inr (1, None))"
proof -
  obtain s' where "WriteAbstract fresh_root (Some 0) (GoByte 65) = Some (Inr (s', 1, None))"
    using WriteAbstract_GoByte_fresh by blast
  then show ?thesis
    by (simp add: outcome_def WriteAbstract_def [of _ _ "GoInt _"]
        WriteAbstract_def [of _ _ "GoUint _"] WriteAbstract_def [of _ _ "GoBool _"]
        encode_switch_def lift_def Let_def then_store_def crunch_Grow_def crunch_NewBuffer_def)
qed

text \<open>
  Claim C10. On every buffer whose chain ends at a root that is not closed, \<^verbatim>\<open>Seek\<close>
  validates nothing: for every \<^verbatim>\<open>int64\<close> value \<open>to\<close>, \<^verbatim>\<open>Seek(to, io.SeekStart)\<close> returns \<open>to\<close>
  and no error and sets the offset to \<open>to\<close>; \<^verbatim>\<open>io.SeekCurrent\<close> does the same with
  \<open>offset + to\<close> and \<^verbatim>\<open>io.SeekEnd\<close> with the capacity minus \<open>to\<close> (in \<^verbatim>\<open>int64\<close>
  arithmetic).
\<close>

theorem C10_seek_unchecked:
  assumes chain: "root_of s a r" and store: "buffer (bufs s r) = Some k"
    and op: "\<not> closed (bufs s r)"
  shows "(\<exists>s1. Seek s (Some a) to SeekStart = Some (Inr (s1, to, None)) \<and>
               offset (bufs s1 a) = to) \<and>
         (\<exists>s1. Seek s (Some a) to SeekCurrent = Some (Inr (s1, offset (bufs s a) + to, None)) \<and>
               offset (bufs s1 a) = offset (bufs s a) + to) \<and>
         (\<exists>s1. Seek s (Some a) to SeekEnd =
                  Some (Inr (s1, crunch_ByteCapacity (stores s k) - to, None)) \<and>
               offset (bufs s1 a) = crunch_ByteCapacity (stores s k) - to)"
  using Seek_chain [OF chain store op, of to SeekStart]
    Seek_chain [OF chain store op, of to SeekCurrent]
    Seek_chain [OF chain store op, of to SeekEnd]
  by (auto simp: SeekStart_def SeekCurrent_def SeekEnd_def)

theorem C10_seek_unchecked_witness:
  "root_of with_reference 1 0 \<and> buffer (bufs with_reference 0) = Some 0 \<and>
   \<not> closed (bufs with_reference 0) \<and>
   (\<exists>s1. Seek with_reference (Some 1) (- 5) SeekStart = Some (Inr (s1, - 5, None)) \<and>
         offset (bufs s1 1) = - 5) \<and>
   (\<exists>s1. Seek with_reference (Some 1) 100 SeekCurrent = Some (Inr (s1, 100, None)) \<and>
         offset (bufs s1 1) = 100) \<and>
   (\<exists>s1. Seek with_reference (Some 1) 7 SeekEnd = Some (Inr (s1, - 5, None)) \<and>
         offset (bufs s1 1) = - 5)"
proof -
  have h: "root_of with_reference 1 0" "buffer (bufs with_reference 0) = Some 0"
    "\<not> closed (bufs with_reference 0)"
    by (rule root_of_with_reference(1)) (simp_all add: with_reference_facts)
  show ?thesis
    using h C10_seek_unchecked [OF h, of "- 5"] C10_seek_unchecked [OF h, of 100]
      C10_seek_unchecked [OF h, of 7]
    by (simp add: with_reference_facts crunch_ByteCapacity_def del: One_nat_def)
qed

end
